theory Spec2Isabelle
  imports Main "HOL-Library.Sublist"
begin

section \<open>Data model of \<open>app/main.py\<close>\<close>

text \<open>
  The request model \<open>User\<close> (a pydantic class): \<open>id\<close> is optional and defaults to
  \<open>None\<close>; \<open>name\<close>, \<open>email\<close> and \<open>age\<close> are required. Python's \<open>int\<close> is
  unbounded, so \<open>age\<close> is an \<open>int\<close>. The attribute names carry the prefix \<open>user_\<close>,
  since three classes of the source share the names \<open>id\<close>, \<open>name\<close>, \<open>email\<close>, \<open>age\<close>.
\<close>

record User =
  user_id_opt :: "int option"
  user_name :: string
  user_email :: string
  user_age :: int

text \<open>
  The dictionary \<open>user_data\<close> that \<open>create_user\<close> builds and stores: its keys are
  always exactly \<open>"id"\<close>, \<open>"name"\<close>, \<open>"email"\<close>, \<open>"age"\<close>, so it is a record with
  four fields (\<open>id'\<close> for the key \<open>"id"\<close>, as \<open>id\<close> is the identity function of HOL).
\<close>

record user_data =
  id' :: int
  name :: string
  email :: string
  age :: int

text \<open>The response model \<open>UserResponse\<close>.\<close>

record UserResponse =
  resp_id :: int
  resp_name :: string
  resp_email :: string
  resp_age :: int

text \<open>\<open>HTTPException(status_code=..., detail=...)\<close>.\<close>

record HTTPException =
  status_code :: int
  detail :: string

text \<open>The dictionaries returned by \<open>root\<close>, \<open>health_check\<close> and \<open>delete_user\<close>.\<close>

record root_response =
  root_message :: string
  root_status :: string

record health_response =
  status :: string
  version :: string
  users_count :: int

record delete_response =
  message :: string

text \<open>The global list \<open>users_db\<close>, initially \<open>[]\<close>.\<close>

type_synonym users_db = "user_data list"

definition users_db_init :: users_db where
  "users_db_init = []"

section \<open>Python's \<open>str\<close> on integers\<close>

text \<open>
  The f-string of \<open>delete_user\<close> formats \<open>user_id\<close> with \<open>str\<close>: decimal digits,
  no leading zeros, a leading minus sign for a negative number.
\<close>

definition digit_char :: "nat \<Rightarrow> char" where
  "digit_char d = ''0123456789'' ! d"

fun str_nat :: "nat \<Rightarrow> string" where
  "str_nat n = (if n < 10 then [digit_char n] else str_nat (n div 10) @ [digit_char (n mod 10)])"

declare str_nat.simps [simp del]

definition str_int :: "int \<Rightarrow> string" where
  "str_int i = (if i < 0 then CHR ''-'' # str_nat (nat (- i)) else str_nat (nat i))"

section \<open>The handlers\<close>

text \<open>\<open>UserResponse(**user)\<close>: the four keys of the dictionary become the four attributes.\<close>

definition to_response :: "user_data \<Rightarrow> UserResponse" where
  "to_response u = \<lparr>resp_id = id' u, resp_name = name u, resp_email = email u, resp_age = age u\<rparr>"

text \<open>\<open>GET /\<close>.\<close>

definition root :: root_response where
  "root = \<lparr>root_message = ''Hello CI/CD World!'', root_status = ''healthy''\<rparr>"

text \<open>\<open>GET /health\<close>: \<open>len(users_db)\<close>.\<close>

definition health_check :: "users_db \<Rightarrow> health_response" where
  "health_check db = \<lparr>status = ''ok'', version = ''1.0.0'', users_count = int (length db)\<rparr>"

text \<open>
  \<open>POST /users\<close>. The handler returns its result together with the store it leaves
  behind. The two \<open>raise\<close> statements come before the \<open>append\<close>, so they leave the
  store as it was. The \<open>id\<close> of the request body is never read.
\<close>

definition create_user :: "users_db \<Rightarrow> User \<Rightarrow> (HTTPException + UserResponse) \<times> users_db" where
  "create_user db user =
     (if user_age user < 0 \<or> user_age user > 150 then
        (Inl \<lparr>status_code = 400, detail = ''Age must be between 0 and 150''\<rparr>, db)
      else if list_ex (\<lambda>u. email u = user_email user) db then
        (Inl \<lparr>status_code = 400, detail = ''Email already exists''\<rparr>, db)
      else
        (let user_id = int (length db) + 1;
             user_data = \<lparr>id' = user_id, name = user_name user,
                          email = user_email user, age = user_age user\<rparr>
         in (Inr (to_response user_data), db @ [user_data])))"

text \<open>\<open>GET /users\<close>.\<close>

definition get_users :: "users_db \<Rightarrow> UserResponse list" where
  "get_users db = map to_response db"

text \<open>
  \<open>GET /users/{user_id}\<close>. \<open>next((u for u in users_db if u["id"] == user_id), None)\<close>
  is the first match or \<open>None\<close>. A stored dictionary has four keys, so it is truthy
  and \<open>not user\<close> holds exactly for \<open>None\<close>.
\<close>

definition get_user :: "users_db \<Rightarrow> int \<Rightarrow> HTTPException + UserResponse" where
  "get_user db user_id =
     (case find (\<lambda>u. id' u = user_id) db of
        None \<Rightarrow> Inl \<lparr>status_code = 404, detail = ''User not found''\<rparr>
      | Some user \<Rightarrow> Inr (to_response user))"

text \<open>
  \<open>DELETE /users/{user_id}\<close>. The global \<open>users_db\<close> is rebound to the list of the
  records whose id differs from \<open>user_id\<close>.
\<close>

definition delete_user :: "users_db \<Rightarrow> int \<Rightarrow> (HTTPException + delete_response) \<times> users_db" where
  "delete_user db user_id =
     (case find (\<lambda>u. id' u = user_id) db of
        None \<Rightarrow> (Inl \<lparr>status_code = 404, detail = ''User not found''\<rparr>, db)
      | Some user \<Rightarrow>
          (Inr \<lparr>message = ''User '' @ str_int user_id @ '' deleted successfully''\<rparr>,
           filter (\<lambda>u. id' u \<noteq> user_id) db))"

section \<open>Route dispatch\<close>

text \<open>
  The routes registered on \<open>app\<close>, with the body or path parameter already parsed,
  and the result of each. A handler that only reads \<open>users_db\<close> leaves it as it was.
\<close>

datatype request =
    GET_root
  | GET_health
  | POST_users User
  | GET_users
  | GET_user int
  | DELETE_user int

datatype response =
    Root root_response
  | Health health_response
  | Created UserResponse
  | Listed "UserResponse list"
  | Found UserResponse
  | Deleted delete_response
  | Raised HTTPException

fun handle :: "users_db \<Rightarrow> request \<Rightarrow> response \<times> users_db" where
  "handle db GET_root = (Root root, db)"
| "handle db GET_health = (Health (health_check db), db)"
| "handle db (POST_users user) =
     (case create_user db user of
        (Inl e, db') \<Rightarrow> (Raised e, db')
      | (Inr r, db') \<Rightarrow> (Created r, db'))"
| "handle db GET_users = (Listed (get_users db), db)"
| "handle db (GET_user user_id) =
     (case get_user db user_id of
        Inl e \<Rightarrow> (Raised e, db)
      | Inr r \<Rightarrow> (Found r, db))"
| "handle db (DELETE_user user_id) =
     (case delete_user db user_id of
        (Inl e, db') \<Rightarrow> (Raised e, db')
      | (Inr m, db') \<Rightarrow> (Deleted m, db'))"

text \<open>A sequence of requests served one after the other, with the responses in order.\<close>

fun serve :: "users_db \<Rightarrow> request list \<Rightarrow> response list \<times> users_db" where
  "serve db [] = ([], db)"
| "serve db (rq # rqs) =
     (case handle db rq of
        (rp, db') \<Rightarrow> (case serve db' rqs of (rps, db'') \<Rightarrow> (rp # rps, db'')))"

text \<open>
  The records that \<open>create_user\<close> stores for the request bodies \<open>us\<close>, served in
  this order on a store of \<open>n\<close> records, when every one of them is accepted. It is
  the right-hand side of the lemmas on a run of creations, not part of the program.
\<close>

fun records_from :: "nat \<Rightarrow> User list \<Rightarrow> user_data list" where
  "records_from n [] = []"
| "records_from n (u # us) =
     \<lparr>id' = int n + 1, name = user_name u, email = user_email u, age = user_age u\<rparr>
       # records_from (Suc n) us"

text \<open>
  The stores that the program can hold: the empty list at start-up, and the store left
  by a creation or a deletion that succeeds on such a store.
\<close>

inductive reachable :: "users_db \<Rightarrow> bool" where
  start: "reachable users_db_init"
| created: "reachable db \<Longrightarrow> create_user db user = (Inr r, db') \<Longrightarrow> reachable db'"
| deleted: "reachable db \<Longrightarrow> delete_user db k = (Inr m, db') \<Longrightarrow> reachable db'"

section \<open>The three outcomes of \<open>create_user\<close>\<close>

lemma create_user_age_error:
  "user_age user < 0 \<or> 150 < user_age user \<Longrightarrow>
   create_user db user =
     (Inl \<lparr>status_code = 400, detail = ''Age must be between 0 and 150''\<rparr>, db)"
  by (simp add: create_user_def)

lemma create_user_email_error:
  "0 \<le> user_age user \<Longrightarrow> user_age user \<le> 150 \<Longrightarrow>
   list_ex (\<lambda>u. email u = user_email user) db \<Longrightarrow>
   create_user db user = (Inl \<lparr>status_code = 400, detail = ''Email already exists''\<rparr>, db)"
  by (simp add: create_user_def)

lemma create_user_success:
  "0 \<le> user_age user \<Longrightarrow> user_age user \<le> 150 \<Longrightarrow>
   \<not> list_ex (\<lambda>u. email u = user_email user) db \<Longrightarrow>
   create_user db user =
     (Inr \<lparr>resp_id = int (length db) + 1, resp_name = user_name user,
           resp_email = user_email user, resp_age = user_age user\<rparr>,
      db @ [\<lparr>id' = int (length db) + 1, name = user_name user,
             email = user_email user, age = user_age user\<rparr>])"
  by (simp add: create_user_def to_response_def Let_def)

section \<open>The two outcomes of the lookup by id\<close>

lemma find_id_None: "k \<notin> id' ` set db \<Longrightarrow> find (\<lambda>u. id' u = k) db = None"
  by (auto simp: find_None_iff)

lemma find_id_Some:
  assumes "k \<in> id' ` set db"
  obtains u where "find (\<lambda>u. id' u = k) db = Some u" and "u \<in> set db" and "id' u = k"
proof -
  from assms have "find (\<lambda>u. id' u = k) db \<noteq> None"
    by (auto simp: find_None_iff)
  then obtain u where f: "find (\<lambda>u. id' u = k) db = Some u"
    by blast
  then have "u \<in> set db" and "id' u = k"
    by (auto simp: find_Some_iff)
  with f that show thesis
    by blast
qed

lemma get_user_not_found:
  "k \<notin> id' ` set db \<Longrightarrow>
   get_user db k = Inl \<lparr>status_code = 404, detail = ''User not found''\<rparr>"
  by (simp add: get_user_def find_id_None)

lemma delete_user_not_found:
  "k \<notin> id' ` set db \<Longrightarrow>
   delete_user db k = (Inl \<lparr>status_code = 404, detail = ''User not found''\<rparr>, db)"
  by (simp add: delete_user_def find_id_None)

lemma get_user_found:
  assumes "k \<in> id' ` set db"
  shows "\<exists>u \<in> set db. id' u = k \<and> get_user db k = Inr (to_response u)"
proof -
  from assms obtain u where "find (\<lambda>u. id' u = k) db = Some u" "u \<in> set db" "id' u = k"
    by (rule find_id_Some)
  then show ?thesis
    by (auto simp: get_user_def)
qed

lemma delete_user_found:
  assumes "k \<in> id' ` set db"
  shows "delete_user db k =
     (Inr \<lparr>message = ''User '' @ str_int k @ '' deleted successfully''\<rparr>,
      filter (\<lambda>u. id' u \<noteq> k) db)"
proof -
  from assms obtain u where "find (\<lambda>u. id' u = k) db = Some u"
    by (rule find_id_Some)
  then show ?thesis
    by (simp add: delete_user_def)
qed

section \<open>A run of creations\<close>

lemma length_records_from: "length (records_from n us) = length us"
  by (induction us arbitrary: n) auto

lemma nth_records_from:
  "i < length us \<Longrightarrow>
   records_from n us ! i =
     \<lparr>id' = int (n + i) + 1, name = user_name (us ! i), email = user_email (us ! i),
      age = user_age (us ! i)\<rparr>"
proof (induction us arbitrary: n i)
  case Nil
  then show ?case by simp
next
  case (Cons u us)
  show ?case
  proof (cases i)
    case 0
    then show ?thesis by simp
  next
    case (Suc j)
    with Cons.prems have "j < length us" by simp
    then show ?thesis using Suc by (simp add: Cons.IH)
  qed
qed

lemma ids_records_from: "map id' (records_from n us) = map int [Suc n..<Suc (n + length us)]"
proof (induction us arbitrary: n)
  case Nil
  then show ?case by simp
next
  case (Cons u us)
  have "[Suc n..<Suc (n + length (u # us))] = Suc n # [Suc (Suc n)..<Suc (Suc n + length us)]"
    using upt_conv_Cons [of "Suc n" "Suc (Suc n + length us)"] by (simp del: upt_Suc)
  then show ?case
    by (simp add: Cons.IH del: upt_Suc)
qed

lemma serve_append:
  "serve db (rqs @ rqs') =
     (case serve db rqs of
        (rps, db') \<Rightarrow> (case serve db' rqs' of (rps', db'') \<Rightarrow> (rps @ rps', db'')))"
  by (induction rqs arbitrary: db) (auto split: prod.splits)

lemma serve_creates:
  assumes "distinct (map user_email us)"
    and "\<forall>u \<in> set us. 0 \<le> user_age u \<and> user_age u \<le> 150"
    and "\<forall>u \<in> set us. user_email u \<notin> email ` set db"
  shows "serve db (map POST_users us) =
           (map (\<lambda>r. Created (to_response r)) (records_from (length db) us),
            db @ records_from (length db) us)"
  using assms
proof (induction us arbitrary: db)
  case Nil
  then show ?case by simp
next
  case (Cons a us)
  let ?rec = "\<lparr>id' = int (length db) + 1, name = user_name a, email = user_email a,
               age = user_age a\<rparr>"
  from Cons.prems have age: "0 \<le> user_age a" "user_age a \<le> 150"
    by auto
  from Cons.prems have "user_email a \<notin> email ` set db"
    by simp
  then have "\<not> list_ex (\<lambda>u. email u = user_email a) db"
    by (auto simp: list_ex_iff image_iff)
  with age have c: "create_user db a = (Inr (to_response ?rec), db @ [?rec])"
    by (simp add: create_user_success to_response_def)
  from Cons.prems have "\<forall>u \<in> set us. user_email u \<noteq> user_email a"
    by (fastforce simp: image_iff)
  with Cons.prems have "\<forall>u \<in> set us. user_email u \<notin> email ` set (db @ [?rec])"
    by simp
  moreover from Cons.prems have "distinct (map user_email us)"
    and "\<forall>u \<in> set us. 0 \<le> user_age u \<and> user_age u \<le> 150"
    by auto
  ultimately have "serve (db @ [?rec]) (map POST_users us) =
      (map (\<lambda>r. Created (to_response r)) (records_from (length (db @ [?rec])) us),
       (db @ [?rec]) @ records_from (length (db @ [?rec])) us)"
    by (intro Cons.IH)
  with c show ?case
    by simp
qed

section \<open>Identifiers after a deletion\<close>

text \<open>
  Claim C1: in every store reachable from the empty store by successful creations and
  deletions, the ids of the stored records are pairwise distinct positive integers.
  The program does not keep this: \<open>create_user\<close> numbers a record with the length
  of the list plus one, and a deletion shortens the list. Creating two users, deleting
  the first and creating a third, every request succeeding, leaves two records with
  the id 2.
\<close>

theorem create_after_delete_id_collision:
  "serve users_db_init
     [POST_users \<lparr>user_id_opt = None, user_name = ''A'', user_email = ''a@x.com'', user_age = 30\<rparr>,
      POST_users \<lparr>user_id_opt = None, user_name = ''B'', user_email = ''b@x.com'', user_age = 20\<rparr>,
      DELETE_user 1,
      POST_users \<lparr>user_id_opt = None, user_name = ''C'', user_email = ''c@x.com'', user_age = 40\<rparr>]
   = ([Created \<lparr>resp_id = 1, resp_name = ''A'', resp_email = ''a@x.com'', resp_age = 30\<rparr>,
       Created \<lparr>resp_id = 2, resp_name = ''B'', resp_email = ''b@x.com'', resp_age = 20\<rparr>,
       Deleted \<lparr>message = ''User 1 deleted successfully''\<rparr>,
       Created \<lparr>resp_id = 2, resp_name = ''C'', resp_email = ''c@x.com'', resp_age = 40\<rparr>],
      [\<lparr>id' = 2, name = ''B'', email = ''b@x.com'', age = 20\<rparr>,
       \<lparr>id' = 2, name = ''C'', email = ''c@x.com'', age = 40\<rparr>])
   \<and> \<not> distinct (map id'
        [\<lparr>id' = 2, name = ''B'', email = ''b@x.com'', age = 20\<rparr>,
         \<lparr>id' = 2, name = ''C'', email = ''c@x.com'', age = 40\<rparr>])"
  by (simp add: users_db_init_def create_user_def delete_user_def to_response_def
      str_int_def str_nat.simps digit_char_def)

text \<open>
  The other half of the invariant does hold: an id is the length of a list plus one,
  and a deletion only removes records, so every id in a reachable store is positive.
\<close>

lemma create_user_Inr_store:
  assumes "create_user db user = (Inr r, db')"
  shows "db' = db @ [\<lparr>id' = int (length db) + 1, name = user_name user,
                      email = user_email user, age = user_age user\<rparr>]"
  using assms by (simp add: create_user_def Let_def split: if_splits)

lemma delete_user_Inr_store:
  assumes "delete_user db k = (Inr m, db')"
  shows "db' = filter (\<lambda>u. id' u \<noteq> k) db"
  using assms by (simp add: delete_user_def split: option.splits)

lemma reachable_ids_positive: "reachable db \<Longrightarrow> \<forall>u \<in> set db. 0 < id' u"
proof (induction rule: reachable.induct)
  case start
  show ?case
    by (simp add: users_db_init_def)
next
  case (created db user r db')
  from created.hyps(2) have "db' = db @ [\<lparr>id' = int (length db) + 1, name = user_name user,
      email = user_email user, age = user_age user\<rparr>]"
    by (rule create_user_Inr_store)
  with created.IH show ?case
    by simp
next
  case (deleted db k m db')
  from deleted.hyps(2) have "db' = filter (\<lambda>u. id' u \<noteq> k) db"
    by (rule delete_user_Inr_store)
  with deleted.IH show ?case
    by simp
qed

section \<open>Validation of a creation\<close>

text \<open>
  Claim C2: in every store, a creation with age -1 or 151 raises the 400 error with
  the detail "Age must be between 0 and 150", whatever the email is, and leaves the
  store as it was; a creation with age 0 or 150 whose email is the email of no stored
  record succeeds, with the next id, and appends the record.
\<close>

theorem create_user_age_boundaries:
  "(user_age user = - 1 \<or> user_age user = 151 \<longrightarrow>
      create_user db user =
        (Inl \<lparr>status_code = 400, detail = ''Age must be between 0 and 150''\<rparr>, db)) \<and>
   ((user_age user = 0 \<or> user_age user = 150) \<and>
    (\<forall>u \<in> set db. email u \<noteq> user_email user) \<longrightarrow>
      create_user db user =
        (Inr \<lparr>resp_id = int (length db) + 1, resp_name = user_name user,
              resp_email = user_email user, resp_age = user_age user\<rparr>,
         db @ [\<lparr>id' = int (length db) + 1, name = user_name user,
                email = user_email user, age = user_age user\<rparr>]))"
proof (intro conjI impI)
  assume "user_age user = - 1 \<or> user_age user = 151"
  then have "user_age user < 0 \<or> 150 < user_age user"
    by auto
  then show "create_user db user =
      (Inl \<lparr>status_code = 400, detail = ''Age must be between 0 and 150''\<rparr>, db)"
    by (rule create_user_age_error)
next
  assume a: "(user_age user = 0 \<or> user_age user = 150) \<and>
    (\<forall>u \<in> set db. email u \<noteq> user_email user)"
  then have "0 \<le> user_age user" and "user_age user \<le> 150"
    by auto
  moreover from a have "\<not> list_ex (\<lambda>u. email u = user_email user) db"
    by (simp add: list_ex_iff)
  ultimately show "create_user db user =
      (Inr \<lparr>resp_id = int (length db) + 1, resp_name = user_name user,
            resp_email = user_email user, resp_age = user_age user\<rparr>,
       db @ [\<lparr>id' = int (length db) + 1, name = user_name user,
              email = user_email user, age = user_age user\<rparr>])"
    by (rule create_user_success)
qed

theorem create_user_age_boundaries_witness:
  "create_user [\<lparr>id' = 1, name = ''A'', email = ''a@x.com'', age = 30\<rparr>]
     \<lparr>user_id_opt = None, user_name = ''B'', user_email = ''a@x.com'', user_age = 151\<rparr>
   = (Inl \<lparr>status_code = 400, detail = ''Age must be between 0 and 150''\<rparr>,
      [\<lparr>id' = 1, name = ''A'', email = ''a@x.com'', age = 30\<rparr>]) \<and>
   create_user [\<lparr>id' = 1, name = ''A'', email = ''a@x.com'', age = 30\<rparr>]
     \<lparr>user_id_opt = None, user_name = ''B'', user_email = ''b@x.com'', user_age = 150\<rparr>
   = (Inr \<lparr>resp_id = 2, resp_name = ''B'', resp_email = ''b@x.com'', resp_age = 150\<rparr>,
      [\<lparr>id' = 1, name = ''A'', email = ''a@x.com'', age = 30\<rparr>,
       \<lparr>id' = 2, name = ''B'', email = ''b@x.com'', age = 150\<rparr>])"
  using
    create_user_age_boundaries
      [of "\<lparr>user_id_opt = None, user_name = ''B'', user_email = ''a@x.com'', user_age = 151\<rparr>"
          "[\<lparr>id' = 1, name = ''A'', email = ''a@x.com'', age = 30\<rparr>]"]
    create_user_age_boundaries
      [of "\<lparr>user_id_opt = None, user_name = ''B'', user_email = ''b@x.com'', user_age = 150\<rparr>"
          "[\<lparr>id' = 1, name = ''A'', email = ''a@x.com'', age = 30\<rparr>]"]
  by simp

text \<open>
  Claim C3: in every store, a creation whose age is outside [0,150] and whose email is
  the email of a stored record raises the error of the age rule, "Age must be between
  0 and 150": the age is checked before the email.
\<close>

theorem create_user_age_before_email:
  assumes "user_age user < 0 \<or> 150 < user_age user"
    and "\<exists>u \<in> set db. email u = user_email user"
  shows "create_user db user =
    (Inl \<lparr>status_code = 400, detail = ''Age must be between 0 and 150''\<rparr>, db)"
  using assms(1) by (rule create_user_age_error)

theorem create_user_age_before_email_witness:
  "create_user [\<lparr>id' = 1, name = ''A'', email = ''a@x.com'', age = 30\<rparr>]
     \<lparr>user_id_opt = None, user_name = ''B'', user_email = ''a@x.com'', user_age = - 5\<rparr>
   = (Inl \<lparr>status_code = 400, detail = ''Age must be between 0 and 150''\<rparr>,
      [\<lparr>id' = 1, name = ''A'', email = ''a@x.com'', age = 30\<rparr>])"
proof -
  let ?db = "[\<lparr>id' = 1, name = ''A'', email = ''a@x.com'', age = 30\<rparr>]"
  let ?user = "\<lparr>user_id_opt = None, user_name = ''B'', user_email = ''a@x.com'',
    user_age = - 5\<rparr>"
  have age: "user_age ?user < 0 \<or> 150 < user_age ?user"
    by simp
  have dup: "\<exists>u \<in> set ?db. email u = user_email ?user"
    by simp
  show ?thesis
    using create_user_age_before_email [OF age dup] .
qed

text \<open>
  Claim C4: in every store that holds a record with the email \<open>e\<close>, a creation with
  the email \<open>e\<close> and an age in [0,150] raises the 400 error with the detail "Email
  already exists", whatever its name and age are, and the store is unchanged: the
  listing that follows returns the records of before.
\<close>

theorem create_user_duplicate_email:
  assumes "\<exists>u \<in> set db. email u = e"
    and "user_email user = e"
    and "0 \<le> user_age user" and "user_age user \<le> 150"
  shows "create_user db user =
           (Inl \<lparr>status_code = 400, detail = ''Email already exists''\<rparr>, db) \<and>
         serve db [POST_users user, GET_users] =
           ([Raised \<lparr>status_code = 400, detail = ''Email already exists''\<rparr>,
             Listed (get_users db)], db)"
proof -
  from assms(1,2) have "list_ex (\<lambda>u. email u = user_email user) db"
    by (auto simp: list_ex_iff)
  with assms(3,4) have "create_user db user =
      (Inl \<lparr>status_code = 400, detail = ''Email already exists''\<rparr>, db)"
    by (rule create_user_email_error)
  then show ?thesis
    by simp
qed

theorem create_user_duplicate_email_witness:
  "serve [\<lparr>id' = 1, name = ''A'', email = ''a@x.com'', age = 30\<rparr>]
     [POST_users \<lparr>user_id_opt = None, user_name = ''B'', user_email = ''a@x.com'', user_age = 20\<rparr>,
      GET_users]
   = ([Raised \<lparr>status_code = 400, detail = ''Email already exists''\<rparr>,
       Listed [\<lparr>resp_id = 1, resp_name = ''A'', resp_email = ''a@x.com'', resp_age = 30\<rparr>]],
      [\<lparr>id' = 1, name = ''A'', email = ''a@x.com'', age = 30\<rparr>])"
proof -
  let ?db = "[\<lparr>id' = 1, name = ''A'', email = ''a@x.com'', age = 30\<rparr>]"
  let ?user = "\<lparr>user_id_opt = None, user_name = ''B'', user_email = ''a@x.com'',
    user_age = 20\<rparr>"
  have dup: "\<exists>u \<in> set ?db. email u = ''a@x.com''"
    by simp
  have em: "user_email ?user = ''a@x.com''"
    by simp
  have lo: "0 \<le> user_age ?user" and hi: "user_age ?user \<le> 150"
    by simp_all
  from create_user_duplicate_email [OF dup em lo hi] show ?thesis
    by (simp add: get_users_def to_response_def)
qed

text \<open>
  Claim C8: the email rule compares strings for equality, character by character and
  with the case of the letters. In every store, a creation whose email differs from
  the email of every stored record does not raise "Email already exists": it raises
  the age error when the age is outside [0,150] and succeeds otherwise.
\<close>

theorem create_user_email_exact:
  assumes "\<forall>u \<in> set db. email u \<noteq> user_email user"
  shows "fst (create_user db user) \<noteq>
           Inl \<lparr>status_code = 400, detail = ''Email already exists''\<rparr> \<and>
         (if user_age user < 0 \<or> 150 < user_age user
          then create_user db user =
            (Inl \<lparr>status_code = 400, detail = ''Age must be between 0 and 150''\<rparr>, db)
          else create_user db user =
            (Inr \<lparr>resp_id = int (length db) + 1, resp_name = user_name user,
                  resp_email = user_email user, resp_age = user_age user\<rparr>,
             db @ [\<lparr>id' = int (length db) + 1, name = user_name user,
                    email = user_email user, age = user_age user\<rparr>]))"
proof -
  from assms have n: "\<not> list_ex (\<lambda>u. email u = user_email user) db"
    by (simp add: list_ex_iff)
  show ?thesis
  proof (cases "user_age user < 0 \<or> 150 < user_age user")
    case True
    then show ?thesis
      by (simp add: create_user_age_error)
  next
    case False
    with n show ?thesis
      by (simp add: create_user_success)
  qed
qed

theorem create_user_email_exact_witness:
  "create_user [\<lparr>id' = 1, name = ''A'', email = ''a@x.com'', age = 30\<rparr>]
     \<lparr>user_id_opt = None, user_name = ''B'', user_email = ''A@x.com'', user_age = 20\<rparr>
   = (Inr \<lparr>resp_id = 2, resp_name = ''B'', resp_email = ''A@x.com'', resp_age = 20\<rparr>,
      [\<lparr>id' = 1, name = ''A'', email = ''a@x.com'', age = 30\<rparr>,
       \<lparr>id' = 2, name = ''B'', email = ''A@x.com'', age = 20\<rparr>])"
proof -
  let ?db = "[\<lparr>id' = 1, name = ''A'', email = ''a@x.com'', age = 30\<rparr>]"
  let ?user = "\<lparr>user_id_opt = None, user_name = ''B'', user_email = ''A@x.com'',
    user_age = 20\<rparr>"
  have differs: "\<forall>u \<in> set ?db. email u \<noteq> user_email ?user"
    by simp
  from create_user_email_exact [OF differs] show ?thesis
    by simp
qed

section \<open>Creating \<open>N\<close> users\<close>

text \<open>
  Claim C5: for every \<open>N\<close>, creating \<open>N\<close> users with pairwise distinct emails and
  ages in [0,150] on the empty store succeeds every time; the listing that follows
  returns exactly \<open>N\<close> records, in the order of creation, with the ids 1 to \<open>N\<close>, and
  the detailed health check reports \<open>users_count = N\<close>.
\<close>

theorem create_many_then_list:
  assumes "distinct (map user_email us)"
    and "\<forall>u \<in> set us. 0 \<le> user_age u \<and> user_age u \<le> 150"
  shows "\<exists>rs db.
      serve users_db_init (map POST_users us @ [GET_users, GET_health]) =
        (map Created rs @
           [Listed rs,
            Health \<lparr>status = ''ok'', version = ''1.0.0'', users_count = int (length us)\<rparr>],
         db) \<and>
      get_users db = rs \<and>
      length rs = length us \<and>
      (\<forall>i < length us.
         rs ! i = \<lparr>resp_id = int i + 1, resp_name = user_name (us ! i),
                   resp_email = user_email (us ! i), resp_age = user_age (us ! i)\<rparr>) \<and>
      map resp_id rs = map int [1..<Suc (length us)]"
proof -
  let ?db = "records_from 0 us"
  let ?rs = "map to_response ?db"
  have "\<forall>u \<in> set us. user_email u \<notin> email ` set ([] :: users_db)"
    by simp
  with assms have "serve [] (map POST_users us) =
      (map (\<lambda>r. Created (to_response r)) (records_from (length ([] :: users_db)) us),
       [] @ records_from (length ([] :: users_db)) us)"
    by (rule serve_creates)
  then have creates: "serve [] (map POST_users us) = (map Created ?rs, ?db)"
    by (simp add: comp_def)
  have run: "serve users_db_init (map POST_users us @ [GET_users, GET_health]) =
      (map Created ?rs @
         [Listed ?rs,
          Health \<lparr>status = ''ok'', version = ''1.0.0'', users_count = int (length us)\<rparr>],
       ?db)"
    by (simp add: serve_append creates users_db_init_def get_users_def health_check_def
        length_records_from)
  have len: "length ?rs = length us"
    by (simp add: length_records_from)
  have nth: "\<forall>i < length us.
      ?rs ! i = \<lparr>resp_id = int i + 1, resp_name = user_name (us ! i),
                  resp_email = user_email (us ! i), resp_age = user_age (us ! i)\<rparr>"
    by (simp add: length_records_from nth_records_from to_response_def)
  have "map resp_id ?rs = map id' ?db"
    by (simp add: to_response_def)
  then have ids: "map resp_id ?rs = map int [1..<Suc (length us)]"
    by (simp only: ids_records_from) simp
  from run len nth ids show ?thesis
    unfolding get_users_def by blast
qed

theorem create_many_then_list_witness:
  "\<exists>rs db.
      serve users_db_init
        (map POST_users
           [\<lparr>user_id_opt = None, user_name = ''Alice'', user_email = ''alice@example.com'',
             user_age = 0\<rparr>,
            \<lparr>user_id_opt = None, user_name = ''Bob'', user_email = ''bob@example.com'',
             user_age = 150\<rparr>] @ [GET_users, GET_health]) =
        (map Created rs @
           [Listed rs, Health \<lparr>status = ''ok'', version = ''1.0.0'', users_count = 2\<rparr>],
         db) \<and>
      get_users db = rs \<and>
      length rs = 2 \<and>
      rs ! 0 = \<lparr>resp_id = 1, resp_name = ''Alice'', resp_email = ''alice@example.com'',
                 resp_age = 0\<rparr> \<and>
      rs ! 1 = \<lparr>resp_id = 2, resp_name = ''Bob'', resp_email = ''bob@example.com'',
                 resp_age = 150\<rparr> \<and>
      map resp_id rs = [1, 2]"
proof -
  let ?us = "[\<lparr>user_id_opt = None, user_name = ''Alice'', user_email = ''alice@example.com'',
               user_age = 0\<rparr>,
              \<lparr>user_id_opt = None, user_name = ''Bob'', user_email = ''bob@example.com'',
               user_age = 150\<rparr>]"
  have d: "distinct (map user_email ?us)"
    by simp
  have a: "\<forall>u \<in> set ?us. 0 \<le> user_age u \<and> user_age u \<le> 150"
    by simp
  from create_many_then_list [OF d a] obtain rs db where
    r: "serve users_db_init (map POST_users ?us @ [GET_users, GET_health]) =
        (map Created rs @
           [Listed rs,
            Health \<lparr>status = ''ok'', version = ''1.0.0'', users_count = int (length ?us)\<rparr>],
         db)"
    and g: "get_users db = rs"
    and l: "length rs = length ?us"
    and n: "\<forall>i < length ?us.
         rs ! i = \<lparr>resp_id = int i + 1, resp_name = user_name (?us ! i),
                   resp_email = user_email (?us ! i), resp_age = user_age (?us ! i)\<rparr>"
    and i: "map resp_id rs = map int [1..<Suc (length ?us)]"
    by blast
  from n have n0: "rs ! 0 = \<lparr>resp_id = 1, resp_name = ''Alice'',
      resp_email = ''alice@example.com'', resp_age = 0\<rparr>"
    and n1: "rs ! 1 = \<lparr>resp_id = 2, resp_name = ''Bob'',
      resp_email = ''bob@example.com'', resp_age = 150\<rparr>"
    by auto
  from i have i': "map resp_id rs = [1, 2]"
    by (simp add: upt_rec)
  from l have l': "length rs = 2"
    by simp
  from r have r': "serve users_db_init (map POST_users ?us @ [GET_users, GET_health]) =
        (map Created rs @
           [Listed rs, Health \<lparr>status = ''ok'', version = ''1.0.0'', users_count = 2\<rparr>],
         db)"
    by simp
  show ?thesis
    by (rule exI [of _ rs], rule exI [of _ db]) (simp only: r' g l' n0 n1 i' simp_thms)
qed

section \<open>Lookup and deletion by id\<close>

text \<open>
  Claim C6: in every store that holds at least one record with the id \<open>k\<close>, deleting
  \<open>k\<close> succeeds with the message "User k deleted successfully" and leaves the store
  without any record of id \<open>k\<close>: every such record is removed, the others stay, in
  their order. A lookup of \<open>k\<close> afterwards raises the 404 error, and \<open>users_count\<close>
  of the detailed health check has gone down by the number of records removed, which
  is at least one.
\<close>

theorem delete_user_removes_all:
  assumes "\<exists>u \<in> set db. id' u = k"
  shows "\<exists>db'.
      delete_user db k =
        (Inr \<lparr>message = ''User '' @ str_int k @ '' deleted successfully''\<rparr>, db') \<and>
      db' = filter (\<lambda>u. id' u \<noteq> k) db \<and>
      (\<forall>u \<in> set db'. id' u \<noteq> k) \<and>
      (\<forall>u \<in> set db. id' u \<noteq> k \<longrightarrow> u \<in> set db') \<and>
      subseq db' db \<and>
      get_user db' k = Inl \<lparr>status_code = 404, detail = ''User not found''\<rparr> \<and>
      users_count (health_check db') =
        users_count (health_check db) - int (length (filter (\<lambda>u. id' u = k) db)) \<and>
      users_count (health_check db') < users_count (health_check db)"
proof -
  let ?db' = "filter (\<lambda>u. id' u \<noteq> k) db"
  from assms have mem: "k \<in> id' ` set db"
    by auto
  then have del: "delete_user db k =
      (Inr \<lparr>message = ''User '' @ str_int k @ '' deleted successfully''\<rparr>, ?db')"
    by (rule delete_user_found)
  have "k \<notin> id' ` set ?db'"
    by auto
  then have get: "get_user ?db' k = Inl \<lparr>status_code = 404, detail = ''User not found''\<rparr>"
    by (rule get_user_not_found)
  have "length (filter (\<lambda>u. id' u = k) db) + length ?db' = length db"
    by (rule sum_length_filter_compl)
  then have count: "users_count (health_check ?db') =
      users_count (health_check db) - int (length (filter (\<lambda>u. id' u = k) db))"
    by (simp add: health_check_def)
  from assms have "filter (\<lambda>u. id' u = k) db \<noteq> []"
    by (simp add: filter_empty_conv)
  then have "0 < length (filter (\<lambda>u. id' u = k) db)"
    by simp
  with count have less: "users_count (health_check ?db') < users_count (health_check db)"
    by simp
  have keep: "\<forall>u \<in> set db. id' u \<noteq> k \<longrightarrow> u \<in> set ?db'"
    by simp
  have gone: "\<forall>u \<in> set ?db'. id' u \<noteq> k"
    by simp
  have sub: "subseq ?db' db"
    by simp
  show ?thesis
  proof (intro exI conjI)
    show "delete_user db k =
        (Inr \<lparr>message = ''User '' @ str_int k @ '' deleted successfully''\<rparr>, ?db')"
      by (rule del)
    show "?db' = filter (\<lambda>u. id' u \<noteq> k) db"
      by (rule refl)
    show "\<forall>u \<in> set ?db'. id' u \<noteq> k"
      by (rule gone)
    show "\<forall>u \<in> set db. id' u \<noteq> k \<longrightarrow> u \<in> set ?db'"
      by (rule keep)
    show "subseq ?db' db"
      by (rule sub)
    show "get_user ?db' k = Inl \<lparr>status_code = 404, detail = ''User not found''\<rparr>"
      by (rule get)
    show "users_count (health_check ?db') =
        users_count (health_check db) - int (length (filter (\<lambda>u. id' u = k) db))"
      by (rule count)
    show "users_count (health_check ?db') < users_count (health_check db)"
      by (rule less)
  qed
qed

theorem delete_user_removes_all_witness:
  "\<exists>db'.
      delete_user
        [\<lparr>id' = 1, name = ''A'', email = ''a@x.com'', age = 30\<rparr>,
         \<lparr>id' = 12, name = ''B'', email = ''b@x.com'', age = 20\<rparr>,
         \<lparr>id' = 3, name = ''C'', email = ''c@x.com'', age = 40\<rparr>,
         \<lparr>id' = 12, name = ''D'', email = ''d@x.com'', age = 50\<rparr>] 12 =
        (Inr \<lparr>message = ''User 12 deleted successfully''\<rparr>, db') \<and>
      db' = [\<lparr>id' = 1, name = ''A'', email = ''a@x.com'', age = 30\<rparr>,
             \<lparr>id' = 3, name = ''C'', email = ''c@x.com'', age = 40\<rparr>] \<and>
      get_user db' 12 = Inl \<lparr>status_code = 404, detail = ''User not found''\<rparr> \<and>
      users_count (health_check db') = 2"
proof -
  let ?db = "[\<lparr>id' = 1, name = ''A'', email = ''a@x.com'', age = 30\<rparr>,
              \<lparr>id' = 12, name = ''B'', email = ''b@x.com'', age = 20\<rparr>,
              \<lparr>id' = 3, name = ''C'', email = ''c@x.com'', age = 40\<rparr>,
              \<lparr>id' = 12, name = ''D'', email = ''d@x.com'', age = 50\<rparr>]"
  have ex: "\<exists>u \<in> set ?db. id' u = 12"
    by simp
  have msg: "''User '' @ str_int 12 @ '' deleted successfully'' = ''User 12 deleted successfully''"
    by (simp add: str_int_def str_nat.simps digit_char_def)
  from delete_user_removes_all [OF ex] obtain db' where
    d: "delete_user ?db 12 =
        (Inr \<lparr>message = ''User '' @ str_int 12 @ '' deleted successfully''\<rparr>, db')"
    and f: "db' = filter (\<lambda>u. id' u \<noteq> 12) ?db"
    and g: "get_user db' 12 = Inl \<lparr>status_code = 404, detail = ''User not found''\<rparr>"
    and c: "users_count (health_check db') =
        users_count (health_check ?db) - int (length (filter (\<lambda>u. id' u = 12) ?db))"
    by blast
  from f have f': "db' = [\<lparr>id' = 1, name = ''A'', email = ''a@x.com'', age = 30\<rparr>,
      \<lparr>id' = 3, name = ''C'', email = ''c@x.com'', age = 40\<rparr>]"
    by simp
  from c have c': "users_count (health_check db') = 2"
    by (simp add: health_check_def)
  from d have d': "delete_user ?db 12 =
      (Inr \<lparr>message = ''User 12 deleted successfully''\<rparr>, db')"
    by (simp only: msg)
  from d' f' g c' show ?thesis
    by (intro exI [of _ db'] conjI)
qed

text \<open>
  Claim C7: in every store and for every integer \<open>k\<close> that is the id of no stored
  record, the lookup of \<open>k\<close> and the deletion of \<open>k\<close> both raise the 404 error with
  the detail "User not found", and both leave the store as it was.
\<close>

theorem not_found_get_delete:
  assumes "\<forall>u \<in> set db. id' u \<noteq> k"
  shows "get_user db k = Inl \<lparr>status_code = 404, detail = ''User not found''\<rparr> \<and>
         delete_user db k =
           (Inl \<lparr>status_code = 404, detail = ''User not found''\<rparr>, db) \<and>
         handle db (GET_user k) =
           (Raised \<lparr>status_code = 404, detail = ''User not found''\<rparr>, db) \<and>
         handle db (DELETE_user k) =
           (Raised \<lparr>status_code = 404, detail = ''User not found''\<rparr>, db)"
proof -
  from assms have "k \<notin> id' ` set db"
    by auto
  then show ?thesis
    by (simp add: get_user_not_found delete_user_not_found)
qed

theorem not_found_get_delete_witness:
  "serve [\<lparr>id' = 1, name = ''A'', email = ''a@x.com'', age = 30\<rparr>]
     [GET_user 999, DELETE_user 999]
   = ([Raised \<lparr>status_code = 404, detail = ''User not found''\<rparr>,
       Raised \<lparr>status_code = 404, detail = ''User not found''\<rparr>],
      [\<lparr>id' = 1, name = ''A'', email = ''a@x.com'', age = 30\<rparr>])"
proof -
  let ?db = "[\<lparr>id' = 1, name = ''A'', email = ''a@x.com'', age = 30\<rparr>]"
  have absent: "\<forall>u \<in> set ?db. id' u \<noteq> 999"
    by simp
  from not_found_get_delete [OF absent] show ?thesis
    by simp
qed

text \<open>
  Claim C10: in every store and for every integer \<open>k\<close>, the deletion of \<open>k\<close> raises
  the 404 error exactly when the lookup of \<open>k\<close> raises it, and that is exactly when
  no stored record has the id \<open>k\<close>.
\<close>

theorem delete_fails_iff_get_fails:
  "((\<exists>e. fst (delete_user db k) = Inl e \<and> status_code e = 404) =
    (\<exists>e. get_user db k = Inl e \<and> status_code e = 404)) \<and>
   ((\<exists>e. get_user db k = Inl e \<and> status_code e = 404) =
    (\<not> list_ex (\<lambda>u. id' u = k) db)) \<and>
   ((\<exists>e. fst (delete_user db k) = Inl e \<and> status_code e = 404) =
    (\<not> list_ex (\<lambda>u. id' u = k) db))"
proof (cases "k \<in> id' ` set db")
  case True
  then have "list_ex (\<lambda>u. id' u = k) db"
    by (auto simp: list_ex_iff)
  moreover from True obtain u where "get_user db k = Inr (to_response u)"
    using get_user_found by blast
  ultimately show ?thesis
    using True by (simp add: delete_user_found)
next
  case False
  then have "\<not> list_ex (\<lambda>u. id' u = k) db"
    by (auto simp: list_ex_iff)
  then show ?thesis
    using False by (simp add: get_user_not_found delete_user_not_found)
qed

theorem delete_fails_iff_get_fails_witness:
  "(\<exists>e. fst (delete_user [\<lparr>id' = 1, name = ''A'', email = ''a@x.com'', age = 30\<rparr>] 2) = Inl e \<and>
        status_code e = 404) \<and>
   (\<exists>e. get_user [\<lparr>id' = 1, name = ''A'', email = ''a@x.com'', age = 30\<rparr>] 2 = Inl e \<and>
        status_code e = 404) \<and>
   \<not> (\<exists>e. fst (delete_user [\<lparr>id' = 1, name = ''A'', email = ''a@x.com'', age = 30\<rparr>] 1) = Inl e \<and>
        status_code e = 404) \<and>
   \<not> (\<exists>e. get_user [\<lparr>id' = 1, name = ''A'', email = ''a@x.com'', age = 30\<rparr>] 1 = Inl e \<and>
        status_code e = 404)"
  using
    delete_fails_iff_get_fails [of "[\<lparr>id' = 1, name = ''A'', email = ''a@x.com'', age = 30\<rparr>]" 2]
    delete_fails_iff_get_fails [of "[\<lparr>id' = 1, name = ''A'', email = ''a@x.com'', age = 30\<rparr>]" 1]
  by simp

section \<open>What a request may change in the store\<close>

text \<open>
  Claim C9: a successful creation appends the new record at the end of the store and
  leaves every record stored before unchanged and in its position. Whatever the
  request is, the store after it is the store of before, or, after a successful
  creation, the store of before with the new record appended, or, after a successful
  deletion of \<open>k\<close>, the store of before without the records of id \<open>k\<close>: no request
  changes a field of a stored record.
\<close>

theorem store_frame:
  "(case create_user db user of
      (Inl e, db') \<Rightarrow> db' = db
    | (Inr r, db') \<Rightarrow>
        db' = db @ [\<lparr>id' = int (length db) + 1, name = user_name user,
                     email = user_email user, age = user_age user\<rparr>] \<and>
        take (length db) db' = db \<and>
        (\<forall>i < length db. db' ! i = db ! i)) \<and>
   (case handle db rq of
      (rp, db') \<Rightarrow>
        db' = db \<or>
        (\<exists>u r. rq = POST_users u \<and> rp = Created r \<and>
           db' = db @ [\<lparr>id' = int (length db) + 1, name = user_name u,
                        email = user_email u, age = user_age u\<rparr>]) \<or>
        (\<exists>k m. rq = DELETE_user k \<and> rp = Deleted m \<and>
           db' = filter (\<lambda>u. id' u \<noteq> k) db \<and> subseq db' db))"
proof (rule conjI)
  show "case create_user db user of
      (Inl e, db') \<Rightarrow> db' = db
    | (Inr r, db') \<Rightarrow>
        db' = db @ [\<lparr>id' = int (length db) + 1, name = user_name user,
                     email = user_email user, age = user_age user\<rparr>] \<and>
        take (length db) db' = db \<and>
        (\<forall>i < length db. db' ! i = db ! i)"
    by (simp add: create_user_def Let_def nth_append)
next
  show "case handle db rq of
      (rp, db') \<Rightarrow>
        db' = db \<or>
        (\<exists>u r. rq = POST_users u \<and> rp = Created r \<and>
           db' = db @ [\<lparr>id' = int (length db) + 1, name = user_name u,
                        email = user_email u, age = user_age u\<rparr>]) \<or>
        (\<exists>k m. rq = DELETE_user k \<and> rp = Deleted m \<and>
           db' = filter (\<lambda>u. id' u \<noteq> k) db \<and> subseq db' db)"
  proof (cases rq)
    case (POST_users u)
    then show ?thesis
      by (simp add: create_user_def Let_def)
  next
    case (GET_user k)
    then show ?thesis
      by (simp split: sum.splits)
  next
    case (DELETE_user k)
    then show ?thesis
      by (simp add: delete_user_def split: option.splits)
  qed simp_all
qed

theorem store_frame_witness:
  "create_user [\<lparr>id' = 1, name = ''A'', email = ''a@x.com'', age = 30\<rparr>]
     \<lparr>user_id_opt = Some 7, user_name = ''B'', user_email = ''b@x.com'', user_age = 20\<rparr>
   = (Inr \<lparr>resp_id = 2, resp_name = ''B'', resp_email = ''b@x.com'', resp_age = 20\<rparr>,
      [\<lparr>id' = 1, name = ''A'', email = ''a@x.com'', age = 30\<rparr>,
       \<lparr>id' = 2, name = ''B'', email = ''b@x.com'', age = 20\<rparr>]) \<and>
   take 1 [\<lparr>id' = 1, name = ''A'', email = ''a@x.com'', age = 30\<rparr>,
           \<lparr>id' = 2, name = ''B'', email = ''b@x.com'', age = 20\<rparr>]
   = [\<lparr>id' = 1, name = ''A'', email = ''a@x.com'', age = 30\<rparr>] \<and>
   handle [\<lparr>id' = 1, name = ''A'', email = ''a@x.com'', age = 30\<rparr>] (DELETE_user 1)
   = (Deleted \<lparr>message = ''User 1 deleted successfully''\<rparr>,
      filter (\<lambda>u. id' u \<noteq> 1) [\<lparr>id' = 1, name = ''A'', email = ''a@x.com'', age = 30\<rparr>])"
proof -
  let ?db = "[\<lparr>id' = 1, name = ''A'', email = ''a@x.com'', age = 30\<rparr>]"
  let ?user = "\<lparr>user_id_opt = Some 7, user_name = ''B'', user_email = ''b@x.com'',
    user_age = 20\<rparr>"
  have c: "create_user ?db ?user =
      (Inr \<lparr>resp_id = 2, resp_name = ''B'', resp_email = ''b@x.com'', resp_age = 20\<rparr>,
       [\<lparr>id' = 1, name = ''A'', email = ''a@x.com'', age = 30\<rparr>,
        \<lparr>id' = 2, name = ''B'', email = ''b@x.com'', age = 20\<rparr>])"
    by (simp add: create_user_def to_response_def)
  have h: "handle ?db (DELETE_user 1) =
      (Deleted \<lparr>message = ''User 1 deleted successfully''\<rparr>, [])"
    by (simp add: delete_user_def str_int_def str_nat.simps digit_char_def)
  from store_frame [of ?db ?user "DELETE_user 1"] show ?thesis
    unfolding c h by simp
qed

end
